theory Spec2Isabelle
  imports
    Complex_Main
    "HOL-Library.Char_ord"
    "HOL-Library.List_Lexorder"
    "HOL-Library.Product_Lexorder"
begin

section \<open>Employee Tracking App: the aggregation core of \<open>employee_tracking_app.py\<close>\<close>

text \<open>
  The script reads two uploaded tables into pandas data frames, derives week and month
  keys from \<open>start_date\<close>, and renders one of six grouped summaries. The embedding
  keeps the tables as lists of typed rows. A missing cell (pandas \<open>NaN\<close>, \<open>NaT\<close>) is
  \<open>None\<close>. Numbers are exact rationals: the script's floating-point sums and the
  division by 60 are idealised, which is exact on the values used below.
  Strings are lists of characters ordered by character code, as Python compares them.
\<close>

subsection \<open>Grouping and the aggregation operations\<close>

text \<open>
  \<open>DataFrame.groupby(keys)\<close> as the script calls it, with the pandas defaults
  \<open>sort=True\<close> and \<open>dropna=True\<close>: rows with a missing key are left out, the
  groups come in ascending order of the key, and every group keeps its rows in the
  table's order.
\<close>

definition groupby :: "('r \<Rightarrow> 'k::linorder option) \<Rightarrow> 'r list \<Rightarrow> ('k \<times> 'r list) list" where
  "groupby key rs =
     map (\<lambda>k. (k, filter (\<lambda>r. key r = Some k) rs)) (sort (remdups (List.map_filter key rs)))"

text \<open>The aggregations \<open>sum\<close>, \<open>count\<close> and \<open>nunique\<close> of one column over a group; all
  three skip missing cells.\<close>

definition agg_sum :: "('r \<Rightarrow> rat option) \<Rightarrow> 'r list \<Rightarrow> rat" where
  "agg_sum col g = sum_list (List.map_filter col g)"

definition agg_count :: "('r \<Rightarrow> 'a option) \<Rightarrow> 'r list \<Rightarrow> nat" where
  "agg_count col g = length (List.map_filter col g)"

definition agg_nunique :: "('r \<Rightarrow> 'a option) \<Rightarrow> 'r list \<Rightarrow> nat" where
  "agg_nunique col g = length (remdups (List.map_filter col g))"

subsection \<open>The duration parser \<open>time_to_minutes\<close>\<close>

text \<open>A cell of the \<open>video_duration\<close> column: a string, a number, or missing.\<close>

datatype cell = Str string | Num rat | NaN

datatype py_error = ValueError | IndexError

text \<open>\<open>str.split(":")\<close>: always at least one part.\<close>

fun split_on :: "char \<Rightarrow> string \<Rightarrow> string list" where
  "split_on c [] = [[]]"
| "split_on c (x # xs) =
     (if x = c then [] # split_on c xs
      else (case split_on c xs of [] \<Rightarrow> [[x]] | p # ps \<Rightarrow> (x # p) # ps))"

text \<open>
  Python's \<open>int(s)\<close> on ASCII text: surrounding whitespace (tab, line feed,
  vertical tab, form feed, carriage return, space) is stripped, one sign is allowed,
  then decimal digits with single underscores between digits; anything else raises
  \<open>ValueError\<close>. The characters 0x1C to 0x1F are not stripped and make the text
  invalid. Text with characters beyond ASCII (other Unicode spaces and digits, which
  \<open>int\<close> also accepts) is outside this model.
\<close>

definition is_space :: "char \<Rightarrow> bool" where
  "is_space c \<longleftrightarrow> c \<in> set [CHR 0x09, CHR 0x0A, CHR 0x0B, CHR 0x0C, CHR 0x0D, CHR 0x20]"

definition strip :: "string \<Rightarrow> string" where
  "strip s = rev (dropWhile is_space (rev (dropWhile is_space s)))"

definition is_digit :: "char \<Rightarrow> bool" where
  "is_digit c \<longleftrightarrow> c \<in> set ''0123456789''"

definition digit_val :: "char \<Rightarrow> int" where
  "digit_val c = int (of_char c) - 48"

fun digits_ok :: "bool \<Rightarrow> string \<Rightarrow> bool" where
  "digits_ok prev_digit [] = prev_digit"
| "digits_ok prev_digit (c # cs) =
     (if is_digit c then digits_ok True cs
      else if c = CHR ''_'' \<and> prev_digit then digits_ok False cs
      else False)"

definition digits_val :: "string \<Rightarrow> int" where
  "digits_val s = foldl (\<lambda>a c. 10 * a + digit_val c) 0 (filter is_digit s)"

definition unsigned_int :: "string \<Rightarrow> py_error + int" where
  "unsigned_int s = (if digits_ok False s then Inr (digits_val s) else Inl ValueError)"

definition py_int :: "string \<Rightarrow> py_error + int" where
  "py_int s =
     (case strip s of
        [] \<Rightarrow> Inl ValueError
      | c # cs \<Rightarrow>
          if c = CHR ''-'' then map_sum id uminus (unsigned_int cs)
          else if c = CHR ''+'' then unsigned_int cs
          else unsigned_int (c # cs))"

text \<open>
  The body of the \<open>try\<close> block. \<open>Inl e\<close> is an exception raised inside it,
  \<open>Inr (Some v)\<close> a \<open>return v\<close>, and \<open>Inr None\<close> leaving the block without a return
  (neither two nor three parts).
\<close>

definition try_block :: "string list \<Rightarrow> py_error + rat option" where
  "try_block parts =
     (if length parts = 2 then
        (case py_int (parts ! 0) of Inl e \<Rightarrow> Inl e | Inr a \<Rightarrow>
         case py_int (parts ! 1) of Inl e \<Rightarrow> Inl e | Inr b \<Rightarrow>
           Inr (Some (of_int a + of_int b / 60)))
      else if length parts = 3 then
        (case py_int (parts ! 0) of Inl e \<Rightarrow> Inl e | Inr a \<Rightarrow>
         case py_int (parts ! 1) of Inl e \<Rightarrow> Inl e | Inr b \<Rightarrow>
         case py_int (parts ! 2) of Inl e \<Rightarrow> Inl e | Inr c \<Rightarrow>
           Inr (Some (of_int a * 60 + of_int b + of_int c / 60)))
      else Inr None)"

text \<open>The bare \<open>except\<close> returns 0 for every exception; the last line returns 0 too.\<close>

definition time_to_minutes :: "cell \<Rightarrow> rat" where
  "time_to_minutes t =
     (case t of
        Str s \<Rightarrow>
          (case try_block (split_on CHR '':'' s) of
             Inl e \<Rightarrow> 0
           | Inr (Some v) \<Rightarrow> v
           | Inr None \<Rightarrow> 0)
      | _ \<Rightarrow> 0)"

subsection \<open>The Video Duration report\<close>

record video_row =
  v_name :: "string option"
  video_duration :: cell

text \<open>A data frame: its column names as standardised by the script (stripped,
  lower case, spaces replaced by underscores) and its rows.\<close>

record 'r df =
  columns :: "string list"
  rows :: "'r list"

record video_summary_row =
  vs_name :: string
  total_minutes :: rat
  target_minutes :: rat
  vs_target_met :: bool

text \<open>\<open>video_df['video_duration'].apply(time_to_minutes)\<close>, then
  \<open>groupby('name')['total_minutes'].sum()\<close>, the target 90 and the comparison.\<close>

definition video_summary :: "video_row list \<Rightarrow> video_summary_row list" where
  "video_summary rs =
     map (\<lambda>(n, g).
            let total = sum_list (map (\<lambda>r. time_to_minutes (video_duration r)) g) in
            \<lparr>vs_name = n, total_minutes = total, target_minutes = 90,
             vs_target_met = (total \<ge> 90)\<rparr>)
         (groupby v_name rs)"

datatype video_view =
    VideoInfo
  | VideoError
  | VideoSummary "video_summary_row list"

text \<open>The branch \<open>choice == "Video Duration"\<close>: no uploaded file gives the
  \<open>st.info\<close> message, a file without both columns the \<open>st.error\<close> message.\<close>

definition video_report :: "video_row df option \<Rightarrow> video_view" where
  "video_report uploaded_video_file =
     (case uploaded_video_file of
        None \<Rightarrow> VideoInfo
      | Some video_df \<Rightarrow>
          if {''name'', ''video_duration''} \<subseteq> set (columns video_df)
          then VideoSummary (video_summary (rows video_df))
          else VideoError)"

subsection \<open>Dates and the derived keys\<close>

text \<open>
  A timestamp of the \<open>start_date\<close> column, as far as the script reads it: its
  calendar date. \<open>pd.to_datetime(..., errors='coerce')\<close> has already run on the
  table that enters the model; a value it could not parse is \<open>None\<close>.
\<close>

record date =
  year :: int
  mon :: nat
  day :: nat

definition is_leap :: "int \<Rightarrow> bool" where
  "is_leap y \<longleftrightarrow> y mod 4 = 0 \<and> (y mod 100 \<noteq> 0 \<or> y mod 400 = 0)"

definition days_before_month :: "int \<Rightarrow> nat \<Rightarrow> int" where
  "days_before_month y m =
     int ([0, 31, 59, 90, 120, 151, 181, 212, 243, 273, 304, 334] ! (m - 1))
       + (if m > 2 \<and> is_leap y then 1 else 0)"

definition days_before_year :: "int \<Rightarrow> int" where
  "days_before_year y = (y - 1) * 365 + (y - 1) div 4 - (y - 1) div 100 + (y - 1) div 400"

definition ymd2ord :: "int \<Rightarrow> nat \<Rightarrow> nat \<Rightarrow> int" where
  "ymd2ord y m d = days_before_year y + days_before_month y m + int d"

definition isoweek1monday :: "int \<Rightarrow> int" where
  "isoweek1monday y =
     (let firstday = ymd2ord y 1 1;
          firstweekday = (firstday + 6) mod 7;
          week1monday = firstday - firstweekday
      in if firstweekday > 3 then week1monday + 7 else week1monday)"

text \<open>\<open>dt.isocalendar().week\<close>: the ISO-8601 week number of a valid date.\<close>

definition iso_week :: "date \<Rightarrow> nat" where
  "iso_week d =
     (let today = ymd2ord (year d) (mon d) (day d);
          week = (today - isoweek1monday (year d)) div 7
      in if week < 0 then nat ((today - isoweek1monday (year d - 1)) div 7 + 1)
         else if week \<ge> 52 \<and> today \<ge> isoweek1monday (year d + 1) then 1
         else nat (week + 1))"

definition month_order :: "string list" where
  "month_order = [''January'', ''February'', ''March'', ''April'', ''May'', ''June'',
                  ''July'', ''August'', ''September'', ''October'', ''November'', ''December'']"

text \<open>\<open>dt.month_name()\<close> and \<open>dt.month\<close> of a valid date.\<close>

definition month_name :: "date \<Rightarrow> string" where
  "month_name d = (if 1 \<le> mon d \<and> mon d \<le> 12 then month_order ! (mon d - 1) else [])"

subsection \<open>The employee table and its preprocessing\<close>

text \<open>
  One row of the employee table after the date conversion. \<open>other\<close> holds the
  numeric cells of every further column by column name (the buffer columns among
  them); a column the table does not have, and a missing cell, are \<open>None\<close>.
\<close>

record employee_row =
  name :: "string option"
  topic :: "string option"
  start_date :: "date option"
  end_date :: "date option"
  work_days :: "rat option"
  leave_days :: "rat option"
  other :: "string \<rightharpoonup> rat"

record norm_row = employee_row +
  week_number :: nat
  month :: string
  month_number :: nat

datatype load_error = MissingColumns "string set"

definition required :: "string list" where
  "required = [''start_date'', ''end_date'', ''work_days'', ''leave_days'', ''topic'', ''name'']"

text \<open>Assigning to a column: a new name is appended, an existing one keeps its place.\<close>

definition add_column :: "string \<Rightarrow> string list \<Rightarrow> string list" where
  "add_column c cs = (if c \<in> set cs then cs else cs @ [c])"

text \<open>The temporal features of a row whose \<open>start_date\<close> is \<open>d\<close>.\<close>

definition add_temporal :: "employee_row \<Rightarrow> date \<Rightarrow> norm_row" where
  "add_temporal r d =
     \<lparr>name = name r, topic = topic r, start_date = start_date r, end_date = end_date r,
      work_days = work_days r, leave_days = leave_days r, other = other r,
      week_number = iso_week d, month = month_name d, month_number = mon d\<rparr>"

text \<open>\<open>dropna(subset=['start_date'])\<close> followed by the three derived columns.\<close>

definition normalize_rows :: "employee_row list \<Rightarrow> norm_row list" where
  "normalize_rows rs =
     List.map_filter (\<lambda>r. map_option (add_temporal r) (start_date r)) rs"

text \<open>Lines 28 to 42: the check of the required columns (\<open>st.error\<close> and
  \<open>st.stop\<close> when one is missing), then the preprocessing.\<close>

definition preprocess :: "employee_row df \<Rightarrow> load_error + norm_row df" where
  "preprocess employee_df =
     (if \<not> (\<forall>col \<in> set required. col \<in> set (columns employee_df))
      then Inl (MissingColumns (set required - set (columns employee_df)))
      else Inr \<lparr>columns = add_column ''month_number'' (add_column ''month''
                   (add_column ''week_number'' (columns employee_df))),
                rows = normalize_rows (rows employee_df)\<rparr>)"

subsection \<open>The five reports on the employee table\<close>

record weekly_row =
  w_name :: string
  w_week_number :: nat
  w_total_work_days :: rat
  w_total_leave_days :: rat
  w_ppt_count :: nat
  weekly_target :: nat
  w_target_met :: bool

definition weekly_key :: "norm_row \<Rightarrow> (string \<times> nat) option" where
  "weekly_key r = map_option (\<lambda>n. (n, week_number r)) (name r)"

text \<open>Lines 53 to 60. The topic column is aggregated with \<open>'count'\<close> here.\<close>

definition weekly_summary :: "norm_row list \<Rightarrow> weekly_row list" where
  "weekly_summary employee_df =
     map (\<lambda>((n, w), g).
            let c = agg_count topic g in
            \<lparr>w_name = n, w_week_number = w,
             w_total_work_days = agg_sum work_days g,
             w_total_leave_days = agg_sum leave_days g,
             w_ppt_count = c, weekly_target = 6, w_target_met = (c \<ge> 6)\<rparr>)
         (groupby weekly_key employee_df)"

record monthly_row =
  m_name :: string
  m_month :: string
  m_month_number :: nat
  m_total_work_days :: rat
  m_total_leave_days :: rat
  m_ppt_count :: nat
  unique_weeks :: nat
  monthly_target :: nat
  m_target_met :: bool

definition monthly_key :: "norm_row \<Rightarrow> (string \<times> string \<times> nat) option" where
  "monthly_key r = map_option (\<lambda>n. (n, month r, month_number r)) (name r)"

text \<open>Lines 77 to 85. \<open>week_number\<close> is never missing in a preprocessed row.\<close>

definition monthly_summary :: "norm_row list \<Rightarrow> monthly_row list" where
  "monthly_summary employee_df =
     map (\<lambda>((n, m, k), g).
            let c = agg_nunique topic g;
                u = agg_nunique (\<lambda>r. Some (week_number r)) g in
            \<lparr>m_name = n, m_month = m, m_month_number = k,
             m_total_work_days = agg_sum work_days g,
             m_total_leave_days = agg_sum leave_days g,
             m_ppt_count = c, unique_weeks = u, monthly_target = u * 6,
             m_target_met = (c \<ge> u * 6)\<rparr>)
         (groupby monthly_key employee_df)"

record overall_row =
  o_name :: string
  o_total_work_days :: rat
  o_total_leave_days :: rat
  total_ppt_count :: nat

text \<open>Lines 103 to 107.\<close>

definition summary :: "norm_row list \<Rightarrow> overall_row list" where
  "summary employee_df =
     map (\<lambda>(n, g).
            \<lparr>o_name = n,
             o_total_work_days = agg_sum work_days g,
             o_total_leave_days = agg_sum leave_days g,
             total_ppt_count = agg_nunique topic g\<rparr>)
         (groupby name employee_df)"

record attendance_row =
  a_name :: string
  a_month :: string
  total_days :: nat
  a_work_days :: rat
  a_leave_days :: rat
  present_days :: rat
  absent_days :: rat

definition attendance_key :: "norm_row \<Rightarrow> (string \<times> string) option" where
  "attendance_key r = map_option (\<lambda>n. (n, month r)) (name r)"

text \<open>Lines 123 to 129.\<close>

definition attendance :: "norm_row list \<Rightarrow> attendance_row list" where
  "attendance employee_df =
     map (\<lambda>((n, m), g).
            let t = agg_count start_date g; w = agg_sum work_days g in
            \<lparr>a_name = n, a_month = m, total_days = t,
             a_work_days = w, a_leave_days = agg_sum leave_days g,
             present_days = w, absent_days = of_nat t - w\<rparr>)
         (groupby attendance_key employee_df)"

text \<open>\<open>Series.unique()\<close>: the values in order of first appearance.\<close>

fun unique :: "'a list \<Rightarrow> 'a list" where
  "unique [] = []"
| "unique (x # xs) = x # unique (filter (\<lambda>y. y \<noteq> x) xs)"

text \<open>The options of the \<open>Select Employee\<close> box, line 133.\<close>

definition employee_options :: "attendance_row list \<Rightarrow> string list" where
  "employee_options att = unique (map a_name att)"

text \<open>Line 134: \<open>attendance[attendance['name'] == emp].iloc[0]\<close>. The select box
  returns \<open>None\<close> when it has no option; \<open>iloc[0]\<close> on an empty selection raises
  \<open>IndexError\<close>.\<close>

definition emp_att :: "attendance_row list \<Rightarrow> string option \<Rightarrow> py_error + attendance_row" where
  "emp_att att emp =
     (case filter (\<lambda>r. Some (a_name r) = emp) att of
        [] \<Rightarrow> Inl IndexError
      | r # _ \<Rightarrow> Inr r)"

text \<open>Lines 136 to 139: the days of the statuses Present, Absent and Leave.\<close>

definition pie_data :: "attendance_row list \<Rightarrow> string option \<Rightarrow> py_error + (string \<times> rat) list" where
  "pie_data att emp =
     (case emp_att att emp of
        Inl e \<Rightarrow> Inl e
      | Inr r \<Rightarrow> Inr [(''Present'', present_days r), (''Absent'', absent_days r),
                     (''Leave'', a_leave_days r)])"

definition buffer_cols :: "string list" where
  "buffer_cols = [''ppt'' @ [CHR 0x27] @ ''s_buffer'', ''lab_ppt'' @ [CHR 0x27] @ ''s_buffer'',
                  ''illu_buffer'', ''ae_buffer'']"

record buffer_row =
  b_name :: string
  b_sums :: "(string \<times> rat) list"

text \<open>Lines 155 and 156: the sums of the four buffer columns per name.\<close>

definition buffer_summary :: "norm_row list \<Rightarrow> buffer_row list" where
  "buffer_summary rs =
     map (\<lambda>(n, g). \<lparr>b_name = n, b_sums = map (\<lambda>c. (c, agg_sum (\<lambda>r. other r c) g)) buffer_cols\<rparr>)
         (groupby name rs)"

datatype buffer_view =
    BufferWarning
  | BufferSummary "buffer_row list"

text \<open>Lines 152 to 172: the summary when all four columns are in the table, the
  \<open>st.warning\<close> message otherwise.\<close>

definition buffer_report :: "norm_row df \<Rightarrow> buffer_view" where
  "buffer_report employee_df =
     (if \<forall>col \<in> set buffer_cols. col \<in> set (columns employee_df)
      then BufferSummary (buffer_summary (rows employee_df))
      else BufferWarning)"

subsection \<open>Example rows\<close>

text \<open>A row of the employee table with a name, a topic, a start date and a number
  of work days, no end date, no leave and no further columns.\<close>

definition example_row :: "string \<Rightarrow> string \<Rightarrow> date \<Rightarrow> rat \<Rightarrow> employee_row" where
  "example_row n t d w =
     \<lparr>name = Some n, topic = Some t, start_date = Some d, end_date = None,
      work_days = Some w, leave_days = Some 0, other = Map.empty\<rparr>"

text \<open>Bob with four distinct topics on four days of one week of March 2024.\<close>

definition bob_march :: "employee_row list" where
  "bob_march =
     [example_row ''Bob'' ''T1'' \<lparr>year = 2024, mon = 3, day = 11\<rparr> 1,
      example_row ''Bob'' ''T2'' \<lparr>year = 2024, mon = 3, day = 12\<rparr> 1,
      example_row ''Bob'' ''T3'' \<lparr>year = 2024, mon = 3, day = 13\<rparr> 1,
      example_row ''Bob'' ''T4'' \<lparr>year = 2024, mon = 3, day = 14\<rparr> 1]"

text \<open>Alice with one topic repeated on six days of ISO week 3 of 2024.\<close>

definition alice_repeats :: "employee_row list" where
  "alice_repeats =
     [example_row ''Alice'' ''T1'' \<lparr>year = 2024, mon = 1, day = 15\<rparr> 1,
      example_row ''Alice'' ''T1'' \<lparr>year = 2024, mon = 1, day = 16\<rparr> 1,
      example_row ''Alice'' ''T1'' \<lparr>year = 2024, mon = 1, day = 17\<rparr> 1,
      example_row ''Alice'' ''T1'' \<lparr>year = 2024, mon = 1, day = 18\<rparr> 1,
      example_row ''Alice'' ''T1'' \<lparr>year = 2024, mon = 1, day = 19\<rparr> 1,
      example_row ''Alice'' ''T1'' \<lparr>year = 2024, mon = 1, day = 20\<rparr> 1]"

text \<open>Alice with one row in March and a later row in April 2024.\<close>

definition alice_two_months :: "employee_row list" where
  "alice_two_months =
     [example_row ''Alice'' ''T1'' \<lparr>year = 2024, mon = 3, day = 11\<rparr> 1,
      example_row ''Alice'' ''T2'' \<lparr>year = 2024, mon = 4, day = 8\<rparr> 2]"

text \<open>A table with the required columns and one row of Alice whose \<open>end_date\<close>
  cell is \<open>e\<close>.\<close>

definition dated_df :: "date option \<Rightarrow> employee_row df" where
  "dated_df e =
     \<lparr>columns = required,
      rows = [(example_row ''Alice'' ''T1'' \<lparr>year = 2024, mon = 1, day = 15\<rparr> 1)
                \<lparr>end_date := e\<rparr>]\<rparr>"

text \<open>A table with the required columns, four further columns \<open>cs\<close>, and two rows
  of Alice that hold 1, 2, 3 and 4 in these columns.\<close>

definition buffer_df :: "string list \<Rightarrow> employee_row df" where
  "buffer_df cs =
     \<lparr>columns = required @ cs,
      rows = [(example_row ''Alice'' ''T1'' \<lparr>year = 2024, mon = 1, day = 15\<rparr> 1)
                \<lparr>other := map_of (zip cs [1, 2, 3, 4])\<rparr>,
              (example_row ''Alice'' ''T2'' \<lparr>year = 2024, mon = 1, day = 16\<rparr> 1)
                \<lparr>other := map_of (zip cs [1, 2, 3, 4])\<rparr>]\<rparr>"

text \<open>Alice with two rows in January 2024 whose work days add up to 4, and Bob
  with one row.\<close>

definition attendance_example :: "employee_row list" where
  "attendance_example =
     [example_row ''Alice'' ''T1'' \<lparr>year = 2024, mon = 1, day = 15\<rparr> 3,
      example_row ''Bob'' ''T1'' \<lparr>year = 2024, mon = 1, day = 15\<rparr> 1,
      example_row ''Alice'' ''T2'' \<lparr>year = 2024, mon = 1, day = 16\<rparr> 1]"

lemmas calendar_defs = iso_week_def ymd2ord_def isoweek1monday_def days_before_year_def
  days_before_month_def is_leap_def month_name_def month_order_def

section \<open>The duration parser\<close>

lemma set_split_on: "p \<in> set (split_on c s) \<Longrightarrow> set p \<subseteq> set s"
proof (induction s arbitrary: p)
  case Nil
  then show ?case by simp
next
  case (Cons x xs)
  show ?case
  proof (cases "x = c")
    case True
    with Cons show ?thesis by auto
  next
    case False
    show ?thesis
    proof (cases "split_on c xs")
      case Nil
      with Cons.prems False show ?thesis by simp
    next
      case (Cons q qs)
      with Cons.prems False have "p = x # q \<or> p \<in> set qs" by simp
      then show ?thesis
      proof
        assume "p = x # q"
        moreover have "set q \<subseteq> set xs" using Cons.IH [of q] Cons by simp
        ultimately show ?thesis by auto
      next
        assume "p \<in> set qs"
        then have "set p \<subseteq> set xs" using Cons.IH [of p] Cons by simp
        then show ?thesis by auto
      qed
    qed
  qed
qed

lemma set_strip: "set (strip s) \<subseteq> set s"
proof -
  have "set (strip s) \<subseteq> set (dropWhile is_space s)"
    unfolding strip_def using set_dropWhileD by fastforce
  also have "\<dots> \<subseteq> set s" using set_dropWhileD by fastforce
  finally show ?thesis .
qed

lemma digit_val_nonneg:
  assumes "is_digit c"
  shows "0 \<le> digit_val c"
proof -
  from assms have "List.member ''0123456789'' c"
    by (simp add: is_digit_def)
  then show ?thesis
    by (simp add: digit_val_def) (elim disjE, simp_all)
qed

lemma foldl_digits_nonneg:
  "0 \<le> a \<Longrightarrow> \<forall>c \<in> set ds. is_digit c \<Longrightarrow> 0 \<le> foldl (\<lambda>a c. 10 * a + digit_val c) a ds"
proof (induction ds arbitrary: a)
  case Nil
  then show ?case by simp
next
  case (Cons d ds)
  have "0 \<le> 10 * a + digit_val d" using Cons.prems digit_val_nonneg [of d] by simp
  then show ?case using Cons by simp
qed

lemma digits_val_nonneg: "0 \<le> digits_val s"
  unfolding digits_val_def by (rule foldl_digits_nonneg) auto

lemma py_int_nonneg:
  assumes "py_int p = Inr n" and "CHR ''-'' \<notin> set p"
  shows "0 \<le> n"
proof -
  have ns: "CHR ''-'' \<notin> set (strip p)" using assms(2) set_strip [of p] by auto
  show ?thesis
  proof (cases "strip p")
    case Nil
    with assms(1) show ?thesis by (simp add: py_int_def)
  next
    case (Cons c cs)
    with ns have "c \<noteq> CHR ''-''" by auto
    with assms(1) Cons have "unsigned_int cs = Inr n \<or> unsigned_int (c # cs) = Inr n"
      by (simp add: py_int_def split: if_splits)
    then show ?thesis
      by (auto simp: unsigned_int_def digits_val_nonneg split: if_splits)
  qed
qed

lemma py_int_error: "py_int p = Inl e \<Longrightarrow> e = ValueError"
  by (cases e) (auto simp: py_int_def unsigned_int_def split: list.splits if_splits)

lemma try_block_nonneg:
  assumes "try_block parts = Inr (Some v)" and "\<forall>p \<in> set parts. CHR ''-'' \<notin> set p"
  shows "0 \<le> v"
proof -
  consider (two) "length parts = 2" | (three) "length parts = 3"
    using assms(1) by (auto simp: try_block_def split: if_splits)
  then show ?thesis
  proof cases
    case two
    then obtain a b where ab: "py_int (parts ! 0) = Inr a" "py_int (parts ! 1) = Inr b"
      and v: "v = of_int a + of_int b / 60"
      using assms(1) by (auto simp: try_block_def split: sum.splits)
    have "parts ! 0 \<in> set parts" "parts ! 1 \<in> set parts" using two by simp_all
    then have "0 \<le> a" "0 \<le> b" using ab assms(2) py_int_nonneg by blast+
    then show ?thesis using v by simp
  next
    case three
    then obtain a b c where ab: "py_int (parts ! 0) = Inr a" "py_int (parts ! 1) = Inr b"
        "py_int (parts ! 2) = Inr c"
      and v: "v = of_int a * 60 + of_int b + of_int c / 60"
      using assms(1) by (auto simp: try_block_def split: sum.splits)
    have "parts ! 0 \<in> set parts" "parts ! 1 \<in> set parts" "parts ! 2 \<in> set parts"
      using three by simp_all
    then have "0 \<le> a" "0 \<le> b" "0 \<le> c" using ab assms(2) py_int_nonneg by blast+
    then show ?thesis using v by simp
  qed
qed

lemma try_block_fails:
  assumes "p \<in> set parts" and "py_int p = Inl e" and "length parts = 2 \<or> length parts = 3"
  shows "\<exists>e'. try_block parts = Inl e'"
proof -
  obtain i where i: "i < length parts" "parts ! i = p"
    using assms(1) by (auto simp: in_set_conv_nth)
  from assms(3) show ?thesis
  proof
    assume two: "length parts = 2"
    then have "i = 0 \<or> i = 1" using i(1) by auto
    then show ?thesis using two i(2) assms(2)
      by (auto simp: try_block_def split: sum.splits)
  next
    assume three: "length parts = 3"
    then have "i = 0 \<or> i = 1 \<or> i = 2" using i(1) by auto
    then show ?thesis using three i(2) assms(2)
      by (auto simp: try_block_def split: sum.splits)
  qed
qed

text \<open>
  C7. The duration parser returns a number on every input and never raises: the
  function is total, every exception of the \<open>try\<close> block ends in the handler. A cell
  that is not a string gives 0; a string that does not split into exactly two or
  three parts gives 0; a string with a part that \<open>int\<close> rejects gives 0.
\<close>

theorem time_to_minutes_fallback:
  "((\<forall>s. t \<noteq> Str s) \<longrightarrow> time_to_minutes t = 0)
   \<and> (length (split_on CHR '':'' s) \<noteq> 2 \<and> length (split_on CHR '':'' s) \<noteq> 3
        \<longrightarrow> time_to_minutes (Str s) = 0)
   \<and> ((\<exists>p \<in> set (split_on CHR '':'' s'). \<exists>e. py_int p = Inl e)
        \<longrightarrow> time_to_minutes (Str s') = 0)"
proof (intro conjI impI)
  assume "\<forall>s. t \<noteq> Str s"
  then show "time_to_minutes t = 0" by (cases t) (simp_all add: time_to_minutes_def)
next
  assume "length (split_on CHR '':'' s) \<noteq> 2 \<and> length (split_on CHR '':'' s) \<noteq> 3"
  then show "time_to_minutes (Str s) = 0" by (simp add: time_to_minutes_def try_block_def)
next
  assume "\<exists>p \<in> set (split_on CHR '':'' s'). \<exists>e. py_int p = Inl e"
  then obtain p e where p: "p \<in> set (split_on CHR '':'' s')" "py_int p = Inl e" by blast
  let ?parts = "split_on CHR '':'' s'"
  show "time_to_minutes (Str s') = 0"
  proof (cases "length ?parts = 2 \<or> length ?parts = 3")
    case True
    then obtain e' where "try_block ?parts = Inl e'" using try_block_fails [OF p] by blast
    then show ?thesis by (simp add: time_to_minutes_def)
  next
    case False
    then show ?thesis by (simp add: time_to_minutes_def try_block_def)
  qed
qed

theorem time_to_minutes_fallback_witness:
  "time_to_minutes NaN = 0 \<and> time_to_minutes (Str ''1:2:3:4'') = 0
   \<and> time_to_minutes (Str ''12:x1'') = 0"
proof -
  have a: "\<forall>s. NaN \<noteq> Str s" by simp
  have b: "length (split_on CHR '':'' ''1:2:3:4'') \<noteq> 2
           \<and> length (split_on CHR '':'' ''1:2:3:4'') \<noteq> 3" by simp
  have "py_int ''x1'' = Inl ValueError" by code_simp
  moreover have "''x1'' \<in> set (split_on CHR '':'' ''12:x1'')" by simp
  ultimately have c: "\<exists>p \<in> set (split_on CHR '':'' ''12:x1''). \<exists>e. py_int p = Inl e"
    by blast
  from time_to_minutes_fallback [of NaN "''1:2:3:4''" "''12:x1''"] a b c
  show ?thesis by blast
qed

text \<open>
  C5, as stated: every derived \<open>total_minutes\<close> value is at least 0. It fails on a
  duration with a minus sign, which \<open>int\<close> accepts.
\<close>

theorem total_minutes_negative_counterexample:
  "time_to_minutes (Str ''-5:00'') < 0"
  by code_simp

text \<open>
  C5, amended. The derived \<open>total_minutes\<close> value of a cell is at least 0 when the
  cell is not a string or is a string without a minus sign, and it is 0 whenever the
  \<open>try\<close> block does not return a value (unparsable input).
\<close>

theorem total_minutes_nonneg:
  "((\<forall>s. t = Str s \<longrightarrow> CHR ''-'' \<notin> set s) \<longrightarrow> 0 \<le> time_to_minutes t)
   \<and> ((\<forall>s. t = Str s \<longrightarrow> (\<forall>v. try_block (split_on CHR '':'' s) \<noteq> Inr (Some v)))
        \<longrightarrow> time_to_minutes t = 0)"
proof (cases t)
  case (Str s)
  show ?thesis
  proof (cases "try_block (split_on CHR '':'' s)")
    case (Inl e)
    with Str show ?thesis by (simp add: time_to_minutes_def)
  next
    case (Inr r)
    show ?thesis
    proof (cases r)
      case None
      with Inr Str show ?thesis by (simp add: time_to_minutes_def)
    next
      case (Some v)
      have "0 \<le> v" if "CHR ''-'' \<notin> set s"
      proof -
        have "\<forall>p \<in> set (split_on CHR '':'' s). CHR ''-'' \<notin> set p"
          using that set_split_on by fastforce
        then show ?thesis using try_block_nonneg Inr Some by blast
      qed
      with Some Inr Str show ?thesis by (simp add: time_to_minutes_def)
    qed
  qed
qed (simp_all add: time_to_minutes_def)

theorem total_minutes_nonneg_witness:
  "0 \<le> time_to_minutes (Str ''1:30'') \<and> time_to_minutes (Str ''bad'') = 0"
proof -
  have a: "\<forall>s. Str ''1:30'' = Str s \<longrightarrow> CHR ''-'' \<notin> set s" by simp
  have "try_block (split_on CHR '':'' ''bad'') = Inr None" by (simp add: try_block_def)
  then have b: "\<forall>s. Str ''bad'' = Str s
      \<longrightarrow> (\<forall>v. try_block (split_on CHR '':'' s) \<noteq> Inr (Some v))" by simp
  from total_minutes_nonneg [of "Str ''1:30''"] a
  have "0 \<le> time_to_minutes (Str ''1:30'')" by blast
  moreover from total_minutes_nonneg [of "Str ''bad''"] b
  have "time_to_minutes (Str ''bad'') = 0" by blast
  ultimately show ?thesis by simp
qed

section \<open>The Video Duration report on two durations\<close>

lemma time_to_minutes_1_00: "time_to_minutes (Str ''1:00'') = 1"
  by code_simp

lemma time_to_minutes_0_45: "time_to_minutes (Str ''0:45'') = 3 / 4"
  by code_simp

text \<open>
  C3, as stated: the durations "1:00" and "0:45" of one SME give
  \<open>total_minutes = 60.75\<close>. The two-part form is read as the first number plus the
  second over 60, so "1:00" is 1 and not 60.
\<close>

theorem video_carol_counterexample:
  "map total_minutes (video_summary
     [\<lparr>v_name = Some ''Carol'', video_duration = Str ''1:00''\<rparr>,
      \<lparr>v_name = Some ''Carol'', video_duration = Str ''0:45''\<rparr>]) \<noteq> [243 / 4]"
  by (simp add: video_summary_def groupby_def
      time_to_minutes_1_00 time_to_minutes_0_45)

text \<open>
  C3, amended. For a video table with the two duration strings "1:00" and "0:45"
  for a single SME name, the Video report has one row for that name with
  \<open>total_minutes = 1.75\<close> (1 + 0/60 + 0 + 45/60) and \<open>target_met = False\<close>.
\<close>

theorem video_two_durations:
  "video_report (Some \<lparr>columns = [''name'', ''video_duration''],
      rows = [\<lparr>v_name = Some n, video_duration = Str ''1:00''\<rparr>,
              \<lparr>v_name = Some n, video_duration = Str ''0:45''\<rparr>]\<rparr>)
   = VideoSummary [\<lparr>vs_name = n, total_minutes = 7 / 4, target_minutes = 90,
                    vs_target_met = False\<rparr>]"
  by (simp add: video_report_def video_summary_def groupby_def
      time_to_minutes_1_00 time_to_minutes_0_45)

section \<open>Facts about grouping and aggregation\<close>

lemma groupby_keys: "map fst (groupby key rs) = sort (remdups (List.map_filter key rs))"
  by (simp add: groupby_def comp_def)

lemma map_filter_map: "List.map_filter f (map h xs) = List.map_filter (\<lambda>x. f (h x)) xs"
  by (induction xs) (simp_all split: option.split)

lemma set_map_filter_key: "set (List.map_filter key rs) = {k. \<exists>r \<in> set rs. key r = Some k}"
  by (induction rs) (auto split: option.split)

lemma groupby_sorted: "sorted_wrt (<) (map fst (groupby key rs))"
  by (simp add: groupby_keys strict_sorted_iff)

lemma groupby_set: "set (map fst (groupby key rs)) = set (List.map_filter key rs)"
  by (simp add: groupby_keys)

lemma groupby_group:
  "(k, g) \<in> set (groupby key rs) \<Longrightarrow> g = filter (\<lambda>r. key r = Some k) rs \<and> g \<noteq> []"
  by (auto simp: groupby_def set_map_filter_key filter_empty_conv)

lemma groupby_member:
  "r \<in> set rs \<Longrightarrow> key r = Some k \<Longrightarrow> (k, filter (\<lambda>r. key r = Some k) rs) \<in> set (groupby key rs)"
  by (auto simp: groupby_def set_map_filter_key)

lemma groupby_map:
  assumes "\<And>r. key (h r) = key r"
  shows "groupby key (map h rs) = map (\<lambda>(k, g). (k, map h g)) (groupby key rs)"
proof -
  have "List.map_filter key (map h rs) = List.map_filter key rs"
    by (simp add: map_filter_map assms)
  moreover have "filter (\<lambda>r. key r = Some k) (map h rs) = map h (filter (\<lambda>r. key r = Some k) rs)" for k
    by (simp add: filter_map comp_def assms)
  ultimately show ?thesis by (simp add: groupby_def comp_def)
qed

lemma agg_sum_map: "(\<And>r. col (h r) = col r) \<Longrightarrow> agg_sum col (map h g) = agg_sum col g"
  by (simp add: agg_sum_def map_filter_map)
lemma agg_count_map: "(\<And>r. col (h r) = col r) \<Longrightarrow> agg_count col (map h g) = agg_count col g"
  by (simp add: agg_count_def map_filter_map)
lemma agg_nunique_map: "(\<And>r. col (h r) = col r) \<Longrightarrow> agg_nunique col (map h g) = agg_nunique col g"
  by (simp add: agg_nunique_def map_filter_map)

lemma agg_nunique_card: "agg_nunique col g = card {v. \<exists>r \<in> set g. col r = Some v}"
  by (simp add: agg_nunique_def length_remdups_card_conv set_map_filter_key)

lemma agg_sum_alt: "agg_sum col g = (\<Sum>r\<leftarrow>g. case col r of None \<Rightarrow> 0 | Some v \<Rightarrow> v)"
  unfolding agg_sum_def by (induction g) (simp_all split: option.split)

lemma agg_count_alt: "agg_count col g = length (filter (\<lambda>r. col r \<noteq> None) g)"
  unfolding agg_count_def by (induction g) (simp_all split: option.split)

section \<open>The order of the summary rows\<close>

lemma weekly_keys: "map (\<lambda>r. (w_name r, w_week_number r)) (weekly_summary rs) = map fst (groupby weekly_key rs)"
  by (simp add: weekly_summary_def comp_def case_prod_beta Let_def)

lemma monthly_keys: "map (\<lambda>r. (m_name r, m_month r, m_month_number r)) (monthly_summary rs) = map fst (groupby monthly_key rs)"
  by (simp add: monthly_summary_def comp_def case_prod_beta Let_def)

lemma summary_keys: "map o_name (summary rs) = map fst (groupby name rs)"
  by (simp add: summary_def comp_def case_prod_beta)

lemma attendance_keys: "map (\<lambda>r. (a_name r, a_month r)) (attendance rs) = map fst (groupby attendance_key rs)"
  by (simp add: attendance_def comp_def case_prod_beta Let_def)

lemma buffer_keys: "map b_name (buffer_summary rs) = map fst (groupby name rs)"
  by (simp add: buffer_summary_def comp_def case_prod_beta)

lemma video_keys: "map vs_name (video_summary vs) = map fst (groupby v_name vs)"
  by (simp add: video_summary_def comp_def case_prod_beta Let_def)

text \<open>
  C4, as stated: the summary rows of a report come in the order in which their group
  keys first occur in the input. With Bob before Alice in the table, the weekly
  summary has Alice first.
\<close>

theorem weekly_order_counterexample:
  "map (\<lambda>r. (w_name r, w_week_number r))
     (weekly_summary (normalize_rows
        [example_row ''Bob'' ''T1'' \<lparr>year = 2024, mon = 1, day = 15\<rparr> 1,
         example_row ''Alice'' ''T2'' \<lparr>year = 2024, mon = 1, day = 15\<rparr> 1]))
   \<noteq> unique (List.map_filter weekly_key (normalize_rows
        [example_row ''Bob'' ''T1'' \<lparr>year = 2024, mon = 1, day = 15\<rparr> 1,
         example_row ''Alice'' ''T2'' \<lparr>year = 2024, mon = 1, day = 15\<rparr> 1]))"
  by (simp add: weekly_keys groupby_keys normalize_rows_def example_row_def add_temporal_def
      weekly_key_def calendar_defs)

text \<open>
  C4, amended. For every report and every input table, the summary rows come in
  strictly ascending order of the group key, one row for each key that occurs in the
  input with a name that is not missing: \<open>groupby\<close> sorts the keys.
\<close>

theorem summary_rows_ascending:
  "sorted_wrt (<) (map (\<lambda>r. (w_name r, w_week_number r)) (weekly_summary rs))
   \<and> set (map (\<lambda>r. (w_name r, w_week_number r)) (weekly_summary rs))
       = set (List.map_filter weekly_key rs)
   \<and> sorted_wrt (<) (map (\<lambda>r. (m_name r, m_month r, m_month_number r)) (monthly_summary rs))
   \<and> set (map (\<lambda>r. (m_name r, m_month r, m_month_number r)) (monthly_summary rs))
       = set (List.map_filter monthly_key rs)
   \<and> sorted_wrt (<) (map o_name (summary rs))
   \<and> set (map o_name (summary rs)) = set (List.map_filter name rs)
   \<and> sorted_wrt (<) (map (\<lambda>r. (a_name r, a_month r)) (attendance rs))
   \<and> set (map (\<lambda>r. (a_name r, a_month r)) (attendance rs))
       = set (List.map_filter attendance_key rs)
   \<and> sorted_wrt (<) (map b_name (buffer_summary rs))
   \<and> set (map b_name (buffer_summary rs)) = set (List.map_filter name rs)
   \<and> sorted_wrt (<) (map vs_name (video_summary vs))
   \<and> set (map vs_name (video_summary vs)) = set (List.map_filter v_name vs)"
  unfolding weekly_keys monthly_keys summary_keys attendance_keys buffer_keys video_keys
  by (intro conjI groupby_sorted groupby_set)

section \<open>The Monthly report\<close>

lemma monthly_row_of_group:
  assumes "row \<in> set (monthly_summary rs)"
  obtains g where "g = filter (\<lambda>r. monthly_key r = Some (m_name row, m_month row, m_month_number row)) rs"
    and "g \<noteq> []"
    and "unique_weeks row = agg_nunique (\<lambda>r. Some (week_number r)) g"
    and "m_ppt_count row = agg_nunique topic g"
    and "monthly_target row = unique_weeks row * 6"
    and "m_target_met row \<longleftrightarrow> m_ppt_count row \<ge> monthly_target row"
proof -
  from assms obtain k g where kg: "(k, g) \<in> set (groupby monthly_key rs)"
    and row: "row = (\<lambda>((n, m, k), g).
            let c = agg_nunique topic g;
                u = agg_nunique (\<lambda>r. Some (week_number r)) g in
            \<lparr>m_name = n, m_month = m, m_month_number = k,
             m_total_work_days = agg_sum work_days g,
             m_total_leave_days = agg_sum leave_days g,
             m_ppt_count = c, unique_weeks = u, monthly_target = u * 6,
             m_target_met = (c \<ge> u * 6)\<rparr>) (k, g)"
    by (auto simp: monthly_summary_def)
  obtain n m j where k: "k = (n, m, j)" by (cases k)
  from groupby_group [OF kg] have g: "g = filter (\<lambda>r. monthly_key r = Some k) rs" "g \<noteq> []"
    by blast+
  show thesis
    by (rule that [of g]) (use g k row in \<open>simp_all add: Let_def\<close>)
qed

text \<open>
  C6. In the Monthly report every summary row belongs to a non-empty group of rows
  with its key (name, month, month_number); \<open>unique_weeks\<close> is the number of
  distinct week numbers of the group, \<open>ppt_count\<close> the number of distinct topics,
  the target is \<open>unique_weeks\<close> times 6, and \<open>target_met\<close> holds exactly when
  \<open>ppt_count\<close> reaches the target; a group in one week has target 6. Every row of the
  table with a name has its summary row.
\<close>

theorem monthly_target_rule:
  "(\<forall>row \<in> set (monthly_summary rs).
      (let g = filter (\<lambda>r. monthly_key r
                 = Some (m_name row, m_month row, m_month_number row)) rs
       in g \<noteq> []
          \<and> unique_weeks row = card (week_number ` set g)
          \<and> m_ppt_count row = card {t. \<exists>r \<in> set g. topic r = Some t}
          \<and> monthly_target row = unique_weeks row * 6
          \<and> (m_target_met row \<longleftrightarrow> m_ppt_count row \<ge> monthly_target row)
          \<and> (card (week_number ` set g) = 1 \<longrightarrow> monthly_target row = 6)))
   \<and> (\<forall>r \<in> set rs. \<forall>n. name r = Some n \<longrightarrow>
         (\<exists>row \<in> set (monthly_summary rs).
            m_name row = n \<and> m_month row = month r \<and> m_month_number row = month_number r))"
proof (intro conjI ballI allI impI)
  fix row
  assume "row \<in> set (monthly_summary rs)"
  then obtain g where g: "g = filter (\<lambda>r. monthly_key r = Some (m_name row, m_month row, m_month_number row)) rs"
    "g \<noteq> []"
    "unique_weeks row = agg_nunique (\<lambda>r. Some (week_number r)) g"
    "m_ppt_count row = agg_nunique topic g"
    "monthly_target row = unique_weeks row * 6"
    "m_target_met row \<longleftrightarrow> m_ppt_count row \<ge> monthly_target row"
    by (rule monthly_row_of_group)
  have "{v. \<exists>r \<in> set g. Some (week_number r) = Some v} = week_number ` set g" by auto
  then have w: "unique_weeks row = card (week_number ` set g)"
    using g(3) by (simp add: agg_nunique_card)
  have t: "m_ppt_count row = card {t. \<exists>r \<in> set g. topic r = Some t}"
    using g(4) by (simp add: agg_nunique_card)
  show "let g = filter (\<lambda>r. monthly_key r
                 = Some (m_name row, m_month row, m_month_number row)) rs
       in g \<noteq> []
          \<and> unique_weeks row = card (week_number ` set g)
          \<and> m_ppt_count row = card {t. \<exists>r \<in> set g. topic r = Some t}
          \<and> monthly_target row = unique_weeks row * 6
          \<and> (m_target_met row \<longleftrightarrow> m_ppt_count row \<ge> monthly_target row)
          \<and> (card (week_number ` set g) = 1 \<longrightarrow> monthly_target row = 6)"
    unfolding Let_def g(1) [symmetric] using g(2,5,6) w t by simp
next
  fix r n
  assume r: "r \<in> set rs" and n: "name r = Some n"
  then have "monthly_key r = Some (n, month r, month_number r)" by (simp add: monthly_key_def)
  then have "(n, month r, month_number r) \<in> set (map fst (groupby monthly_key rs))"
    using r by (auto simp: groupby_keys set_map_filter_key)
  then have "(n, month r, month_number r)
      \<in> set (map (\<lambda>r. (m_name r, m_month r, m_month_number r)) (monthly_summary rs))"
    by (simp only: monthly_keys)
  then show "\<exists>row \<in> set (monthly_summary rs).
            m_name row = n \<and> m_month row = month r \<and> m_month_number row = month_number r"
    by auto
qed

lemma bob_march_normalized:
  "map (\<lambda>r. (name r, topic r, week_number r, month r, month_number r)) (normalize_rows bob_march)
   = [(Some ''Bob'', Some ''T1'', 11, ''March'', 3), (Some ''Bob'', Some ''T2'', 11, ''March'', 3),
      (Some ''Bob'', Some ''T3'', 11, ''March'', 3), (Some ''Bob'', Some ''T4'', 11, ''March'', 3)]"
  by (simp add: bob_march_def normalize_rows_def example_row_def add_temporal_def calendar_defs)

lemma bob_march_monthly:
  "monthly_summary (normalize_rows bob_march)
   = [\<lparr>m_name = ''Bob'', m_month = ''March'', m_month_number = 3, m_total_work_days = 4,
       m_total_leave_days = 0, m_ppt_count = 4, unique_weeks = 1, monthly_target = 6,
       m_target_met = False\<rparr>]"
  by (simp add: bob_march_def normalize_rows_def example_row_def add_temporal_def calendar_defs
      monthly_summary_def groupby_def monthly_key_def agg_nunique_def agg_sum_def)

theorem monthly_target_rule_witness:
  "(\<exists>row \<in> set (monthly_summary (normalize_rows bob_march)).
      m_name row = ''Bob'' \<and> m_month row = ''March'' \<and> m_month_number row = 3
      \<and> unique_weeks row = 1 \<and> monthly_target row = 6 \<and> m_ppt_count row = 4
      \<and> \<not> m_target_met row)"
proof -
  let ?rs = "normalize_rows bob_march"
  have h: "hd ?rs \<in> set ?rs" "name (hd ?rs) = Some ''Bob''" "month (hd ?rs) = ''March''"
    "month_number (hd ?rs) = 3"
    by (simp_all add: bob_march_def normalize_rows_def example_row_def add_temporal_def calendar_defs)
  from monthly_target_rule [of ?rs]
  have "\<forall>r \<in> set ?rs. \<forall>n. name r = Some n \<longrightarrow>
         (\<exists>row \<in> set (monthly_summary ?rs).
            m_name row = n \<and> m_month row = month r \<and> m_month_number row = month_number r)"
    by (rule conjunct2)
  with h(1,2) have "\<exists>row \<in> set (monthly_summary ?rs).
      m_name row = ''Bob'' \<and> m_month row = month (hd ?rs)
      \<and> m_month_number row = month_number (hd ?rs)"
    by blast
  then obtain row where row: "row \<in> set (monthly_summary ?rs)"
    "m_name row = ''Bob''" "m_month row = ''March''" "m_month_number row = 3"
    unfolding h(3,4) by blast
  then have u: "unique_weeks row = 1" "m_ppt_count row = 4" by (simp_all add: bob_march_monthly)
  from monthly_target_rule [of ?rs]
  have "\<forall>row \<in> set (monthly_summary ?rs).
      monthly_target row = unique_weeks row * 6
      \<and> (m_target_met row \<longleftrightarrow> m_ppt_count row \<ge> monthly_target row)"
    unfolding Let_def by blast
  with row(1) have "monthly_target row = unique_weeks row * 6"
    "m_target_met row \<longleftrightarrow> m_ppt_count row \<ge> monthly_target row"
    by blast+
  with u have "monthly_target row = 6" "\<not> m_target_met row" by simp_all
  with u row show ?thesis by blast
qed

section \<open>The Attendance report\<close>

lemma normalize_rows_start_date:
  "r \<in> set (normalize_rows raw) \<Longrightarrow> start_date r \<noteq> None"
  by (auto simp: normalize_rows_def set_map_filter_key add_temporal_def)

lemma agg_count_all:
  "\<forall>r \<in> set g. col r \<noteq> None \<Longrightarrow> agg_count col g = length g"
  by (simp add: agg_count_alt)

lemma attendance_key_iff:
  "attendance_key r = Some (n, m) \<longleftrightarrow> name r = Some n \<and> month r = m"
  by (auto simp: attendance_key_def)

lemma groupby_distinct: "distinct (map fst (groupby key rs))"
  by (simp add: groupby_keys)

lemma attendance_row_of_group:
  assumes "row \<in> set (attendance rs)"
  obtains g where "g = filter (\<lambda>r. name r = Some (a_name row) \<and> month r = a_month row) rs"
    and "g \<noteq> []"
    and "total_days row = agg_count start_date g"
    and "present_days row = agg_sum work_days g"
    and "a_leave_days row = agg_sum leave_days g"
    and "absent_days row = of_nat (total_days row) - present_days row"
proof -
  from assms obtain k g where kg: "(k, g) \<in> set (groupby attendance_key rs)"
    and row: "row = (\<lambda>((n, m), g).
            let t = agg_count start_date g; w = agg_sum work_days g in
            \<lparr>a_name = n, a_month = m, total_days = t,
             a_work_days = w, a_leave_days = agg_sum leave_days g,
             present_days = w, absent_days = of_nat t - w\<rparr>) (k, g)"
    by (auto simp: attendance_def)
  obtain n m where k: "k = (n, m)" by (cases k)
  from groupby_group [OF kg] have g: "g = filter (\<lambda>r. attendance_key r = Some k) rs" "g \<noteq> []"
    by blast+
  from g(1) k have g': "g = filter (\<lambda>r. name r = Some n \<and> month r = m) rs"
    by (simp add: attendance_key_iff)
  show thesis
    by (rule that [of g]) (use g' g(2) k row in \<open>simp_all add: Let_def\<close>)
qed

text \<open>
  C8. In the Attendance report of a preprocessed table there is exactly one summary
  row for every (name, month) that occurs in the table. The rows of the table with
  that name and month are its group, which is not empty; \<open>total_days\<close> is the number
  of rows of the group, \<open>present_days\<close> the sum of their \<open>work_days\<close>, the leave
  column the sum of their \<open>leave_days\<close>, and \<open>absent_days\<close> is \<open>total_days\<close> minus
  \<open>present_days\<close> with no clamping: it is negative when the work days exceed the
  row count.
\<close>

theorem attendance_days:
  "(\<forall>row \<in> set (attendance (normalize_rows raw)).
     (let g = filter (\<lambda>r. name r = Some (a_name row) \<and> month r = a_month row)
                (normalize_rows raw)
      in g \<noteq> []
         \<and> total_days row = length g
         \<and> present_days row = (\<Sum>r\<leftarrow>g. case work_days r of None \<Rightarrow> 0 | Some v \<Rightarrow> v)
         \<and> a_leave_days row = (\<Sum>r\<leftarrow>g. case leave_days r of None \<Rightarrow> 0 | Some v \<Rightarrow> v)
         \<and> absent_days row = of_nat (total_days row) - present_days row
         \<and> (of_nat (total_days row) < present_days row \<longrightarrow> absent_days row < 0)))
   \<and> (\<forall>r \<in> set (normalize_rows raw). \<forall>n. name r = Some n \<longrightarrow>
         (\<exists>row \<in> set (attendance (normalize_rows raw)).
            a_name row = n \<and> a_month row = month r))
   \<and> distinct (map (\<lambda>row. (a_name row, a_month row)) (attendance (normalize_rows raw)))"
proof (intro conjI ballI allI impI)
  fix row
  assume "row \<in> set (attendance (normalize_rows raw))"
  then obtain g where g:
    "g = filter (\<lambda>r. name r = Some (a_name row) \<and> month r = a_month row) (normalize_rows raw)"
    "g \<noteq> []"
    "total_days row = agg_count start_date g"
    "present_days row = agg_sum work_days g"
    "a_leave_days row = agg_sum leave_days g"
    "absent_days row = of_nat (total_days row) - present_days row"
    by (rule attendance_row_of_group)
  have "\<forall>r \<in> set g. start_date r \<noteq> None"
    using g(1) normalize_rows_start_date by auto
  then have t: "total_days row = length g" using g(3) by (simp add: agg_count_all)
  have p: "present_days row = (\<Sum>r\<leftarrow>g. case work_days r of None \<Rightarrow> 0 | Some v \<Rightarrow> v)"
    using g(4) by (simp add: agg_sum_alt)
  have l: "a_leave_days row = (\<Sum>r\<leftarrow>g. case leave_days r of None \<Rightarrow> 0 | Some v \<Rightarrow> v)"
    using g(5) by (simp add: agg_sum_alt)
  show "let g = filter (\<lambda>r. name r = Some (a_name row) \<and> month r = a_month row)
                (normalize_rows raw)
      in g \<noteq> []
         \<and> total_days row = length g
         \<and> present_days row = (\<Sum>r\<leftarrow>g. case work_days r of None \<Rightarrow> 0 | Some v \<Rightarrow> v)
         \<and> a_leave_days row = (\<Sum>r\<leftarrow>g. case leave_days r of None \<Rightarrow> 0 | Some v \<Rightarrow> v)
         \<and> absent_days row = of_nat (total_days row) - present_days row
         \<and> (of_nat (total_days row) < present_days row \<longrightarrow> absent_days row < 0)"
    unfolding Let_def g(1) [symmetric] using g(2) t p l g(6) by simp
next
  fix r n
  assume r: "r \<in> set (normalize_rows raw)" and n: "name r = Some n"
  then have "attendance_key r = Some (n, month r)" by (simp add: attendance_key_def)
  then have "(n, month r) \<in> set (map fst (groupby attendance_key (normalize_rows raw)))"
    using r by (auto simp: groupby_keys set_map_filter_key)
  then have "(n, month r)
      \<in> set (map (\<lambda>row. (a_name row, a_month row)) (attendance (normalize_rows raw)))"
    by (simp only: attendance_keys)
  then show "\<exists>row \<in> set (attendance (normalize_rows raw)).
            a_name row = n \<and> a_month row = month r"
    by auto
next
  show "distinct (map (\<lambda>row. (a_name row, a_month row)) (attendance (normalize_rows raw)))"
    unfolding attendance_keys by (rule groupby_distinct)
qed

lemma attendance_example_rows:
  "attendance (normalize_rows attendance_example)
   = [\<lparr>a_name = ''Alice'', a_month = ''January'', total_days = 2, a_work_days = 4,
       a_leave_days = 0, present_days = 4, absent_days = - 2\<rparr>,
      \<lparr>a_name = ''Bob'', a_month = ''January'', total_days = 1, a_work_days = 1,
       a_leave_days = 0, present_days = 1, absent_days = 0\<rparr>]"
  by (simp add: attendance_example_def normalize_rows_def example_row_def add_temporal_def
      calendar_defs attendance_def groupby_def attendance_key_def agg_count_def agg_sum_def)

theorem attendance_days_witness:
  "(\<exists>row \<in> set (attendance (normalize_rows attendance_example)).
      a_name row = ''Alice'' \<and> a_month row = ''January''
      \<and> total_days row = 2 \<and> present_days row = 4
      \<and> absent_days row = of_nat (total_days row) - present_days row \<and> absent_days row < 0)
   \<and> (\<exists>row \<in> set (attendance (normalize_rows attendance_example)).
        a_name row = ''Bob'' \<and> a_month row = ''January'')"
proof -
  let ?rs = "normalize_rows attendance_example"
  let ?alice = "\<lparr>a_name = ''Alice'', a_month = ''January'', total_days = 2, a_work_days = 4,
       a_leave_days = 0, present_days = 4, absent_days = - 2\<rparr>"
  note rule = attendance_days [of attendance_example]
  have mem: "?alice \<in> set (attendance ?rs)" unfolding attendance_example_rows by simp
  have lt: "of_nat (total_days ?alice) < present_days ?alice" by simp
  from rule mem
  have "absent_days ?alice = of_nat (total_days ?alice) - present_days ?alice
        \<and> (of_nat (total_days ?alice) < present_days ?alice \<longrightarrow> absent_days ?alice < 0)"
    unfolding Let_def by blast
  with lt have a: "absent_days ?alice = of_nat (total_days ?alice) - present_days ?alice"
    "absent_days ?alice < 0" by blast+
  have alice: "\<exists>row \<in> set (attendance ?rs).
      a_name row = ''Alice'' \<and> a_month row = ''January''
      \<and> total_days row = 2 \<and> present_days row = 4
      \<and> absent_days row = of_nat (total_days row) - present_days row \<and> absent_days row < 0"
    using mem a by (intro bexI [of _ ?alice]) simp_all
  have h: "?rs ! 1 \<in> set ?rs" "name (?rs ! 1) = Some ''Bob''" "month (?rs ! 1) = ''January''"
    by (simp_all add: attendance_example_def normalize_rows_def example_row_def
        add_temporal_def calendar_defs)
  from rule
  have "\<forall>r \<in> set ?rs. \<forall>n. name r = Some n \<longrightarrow>
         (\<exists>row \<in> set (attendance ?rs). a_name row = n \<and> a_month row = month r)"
    by blast
  with h(1,2) have "\<exists>row \<in> set (attendance ?rs).
      a_name row = ''Bob'' \<and> a_month row = month (?rs ! 1)"
    by blast
  then have bob: "\<exists>row \<in> set (attendance ?rs). a_name row = ''Bob'' \<and> a_month row = ''January''"
    unfolding h(3) .
  from alice bob show ?thesis by (rule conjI)
qed

section \<open>The Weekly report\<close>

text \<open>
  C1. The Weekly report of the table in which Alice repeats one topic on six days of
  week 3: the summary row has \<open>ppt_count = 6\<close> and \<open>target_met = True\<close>, while the
  group has one distinct topic. The weekly \<open>ppt_count\<close> counts the rows with a topic,
  where the Monthly and Overall reports count distinct topics.
\<close>

theorem weekly_ppt_count_repeated_topic:
  "weekly_summary (normalize_rows alice_repeats)
     = [\<lparr>w_name = ''Alice'', w_week_number = 3, w_total_work_days = 6,
         w_total_leave_days = 0, w_ppt_count = 6, weekly_target = 6, w_target_met = True\<rparr>]
   \<and> agg_nunique topic (normalize_rows alice_repeats) = 1"
  by (simp add: alice_repeats_def normalize_rows_def example_row_def add_temporal_def calendar_defs
      weekly_summary_def groupby_def weekly_key_def agg_nunique_def agg_count_def agg_sum_def)

section \<open>The Attendance drill-down\<close>

lemma set_unique: "set (unique xs) = set xs"
  by (induction xs rule: unique.induct) auto

lemma alice_two_months_attendance:
  "attendance (normalize_rows alice_two_months)
   = [\<lparr>a_name = ''Alice'', a_month = ''April'', total_days = 1, a_work_days = 2,
       a_leave_days = 0, present_days = 2, absent_days = - 1\<rparr>,
      \<lparr>a_name = ''Alice'', a_month = ''March'', total_days = 1, a_work_days = 1,
       a_leave_days = 0, present_days = 1, absent_days = 0\<rparr>]"
  by (simp add: alice_two_months_def normalize_rows_def example_row_def add_temporal_def
      calendar_defs attendance_def groupby_def attendance_key_def agg_count_def agg_sum_def)

text \<open>
  C10. When the selected employee's first row in the attendance table is \<open>r\<close>, the
  employee is among the options of the select box and the Present, Absent and Leave
  days shown are those of \<open>r\<close> alone, whatever rows follow it: further months of the
  same employee are ignored.
\<close>

theorem drill_down_first_row:
  assumes "att = pre @ r # post" and "\<forall>x \<in> set pre. a_name x \<noteq> n" and "a_name r = n"
  shows "n \<in> set (employee_options att)
         \<and> emp_att att (Some n) = Inr r
         \<and> pie_data att (Some n)
             = Inr [(''Present'', present_days r), (''Absent'', absent_days r),
                    (''Leave'', a_leave_days r)]"
proof -
  have "filter (\<lambda>x. Some (a_name x) = Some n) pre = []"
    using assms(2) by (simp add: filter_empty_conv)
  then have "filter (\<lambda>x. Some (a_name x) = Some n) att
      = r # filter (\<lambda>x. Some (a_name x) = Some n) post"
    using assms(1,3) by simp
  then have e: "emp_att att (Some n) = Inr r" by (simp add: emp_att_def)
  have "n \<in> set (employee_options att)"
    using assms(1,3) by (auto simp: employee_options_def set_unique)
  with e show ?thesis by (simp add: pie_data_def)
qed

theorem drill_down_first_row_witness:
  "pie_data (attendance (normalize_rows alice_two_months)) (Some ''Alice'')
   = Inr [(''Present'', 2), (''Absent'', - 1), (''Leave'', 0)]"
proof -
  let ?april = "\<lparr>a_name = ''Alice'', a_month = ''April'', total_days = 1, a_work_days = 2,
       a_leave_days = 0, present_days = 2, absent_days = - 1\<rparr>"
  let ?march = "\<lparr>a_name = ''Alice'', a_month = ''March'', total_days = 1, a_work_days = 1,
       a_leave_days = 0, present_days = 1, absent_days = 0\<rparr>"
  have a: "attendance (normalize_rows alice_two_months) = [] @ ?april # [?march]"
    unfolding alice_two_months_attendance by simp
  have b: "\<forall>x \<in> set []. a_name x \<noteq> ''Alice''" by simp
  have c: "a_name ?april = ''Alice''" by simp
  from drill_down_first_row [OF a b c] show ?thesis by simp
qed

section \<open>Columns that a report does not read\<close>

lemma weekly_summary_map:
  assumes "\<And>r. name (h r) = name r" "\<And>r. week_number (h r) = week_number r"
    "\<And>r. topic (h r) = topic r" "\<And>r. work_days (h r) = work_days r"
    "\<And>r. leave_days (h r) = leave_days r"
  shows "weekly_summary (map h rs) = weekly_summary rs"
proof -
  have "groupby weekly_key (map h rs) = map (\<lambda>(k, g). (k, map h g)) (groupby weekly_key rs)"
    by (rule groupby_map) (simp add: weekly_key_def assms)
  then show ?thesis
    by (simp add: weekly_summary_def comp_def case_prod_beta agg_sum_map agg_count_map assms)
qed

lemma monthly_summary_map:
  assumes "\<And>r. name (h r) = name r" "\<And>r. week_number (h r) = week_number r"
    "\<And>r. month (h r) = month r" "\<And>r. month_number (h r) = month_number r"
    "\<And>r. topic (h r) = topic r" "\<And>r. work_days (h r) = work_days r"
    "\<And>r. leave_days (h r) = leave_days r"
  shows "monthly_summary (map h rs) = monthly_summary rs"
proof -
  have "groupby monthly_key (map h rs) = map (\<lambda>(k, g). (k, map h g)) (groupby monthly_key rs)"
    by (rule groupby_map) (simp add: monthly_key_def assms)
  then show ?thesis
    by (simp add: monthly_summary_def comp_def case_prod_beta agg_sum_map agg_nunique_map assms)
qed

lemma summary_map:
  assumes "\<And>r. name (h r) = name r"
    "\<And>r. topic (h r) = topic r" "\<And>r. work_days (h r) = work_days r"
    "\<And>r. leave_days (h r) = leave_days r"
  shows "summary (map h rs) = summary rs"
proof -
  have "groupby name (map h rs) = map (\<lambda>(k, g). (k, map h g)) (groupby name rs)"
    by (rule groupby_map) (simp add: assms)
  then show ?thesis
    by (simp add: summary_def comp_def case_prod_beta agg_sum_map agg_nunique_map assms)
qed

lemma attendance_map:
  assumes "\<And>r. name (h r) = name r" "\<And>r. month (h r) = month r"
    "\<And>r. start_date (h r) = start_date r" "\<And>r. work_days (h r) = work_days r"
    "\<And>r. leave_days (h r) = leave_days r"
  shows "attendance (map h rs) = attendance rs"
proof -
  have "groupby attendance_key (map h rs)
      = map (\<lambda>(k, g). (k, map h g)) (groupby attendance_key rs)"
    by (rule groupby_map) (simp add: attendance_key_def assms)
  then show ?thesis
    by (simp add: attendance_def comp_def case_prod_beta agg_sum_map agg_count_map assms)
qed

lemma buffer_summary_map:
  assumes "\<And>r. name (h r) = name r" "\<And>r. other (h r) = other r"
  shows "buffer_summary (map h rs) = buffer_summary rs"
proof -
  have "groupby name (map h rs) = map (\<lambda>(k, g). (k, map h g)) (groupby name rs)"
    by (rule groupby_map) (simp add: assms)
  then show ?thesis
    by (simp add: buffer_summary_def comp_def case_prod_beta agg_sum_map assms)
qed

lemma add_temporal_end_date:
  "add_temporal (r\<lparr>end_date := e\<rparr>) d = (add_temporal r d)\<lparr>end_date := e\<rparr>"
  by (simp add: add_temporal_def)

lemma normalize_rows_end_date:
  "normalize_rows (map (\<lambda>r. r\<lparr>end_date := None\<rparr>) raw)
   = map (\<lambda>r. r\<lparr>end_date := None\<rparr>) (normalize_rows raw)"
  by (induction raw) (simp_all add: normalize_rows_def add_temporal_end_date split: option.split)

lemma length_normalize_rows:
  "length (normalize_rows raw) = length (filter (\<lambda>r. start_date r \<noteq> None) raw)"
  by (induction raw) (simp_all add: normalize_rows_def split: option.split)

lemma reports_erase_end_date:
  "weekly_summary (map (\<lambda>r. r\<lparr>end_date := None\<rparr>) rs) = weekly_summary rs"
  "monthly_summary (map (\<lambda>r. r\<lparr>end_date := None\<rparr>) rs) = monthly_summary rs"
  "summary (map (\<lambda>r. r\<lparr>end_date := None\<rparr>) rs) = summary rs"
  "attendance (map (\<lambda>r. r\<lparr>end_date := None\<rparr>) rs) = attendance rs"
  "buffer_summary (map (\<lambda>r. r\<lparr>end_date := None\<rparr>) rs) = buffer_summary rs"
  by (simp_all add: weekly_summary_map monthly_summary_map summary_map attendance_map
      buffer_summary_map)

lemma reports_of_erased:
  assumes "map (\<lambda>r. r\<lparr>end_date := None\<rparr>) raw1 = map (\<lambda>r. r\<lparr>end_date := None\<rparr>) raw2"
  shows "weekly_summary (normalize_rows raw1) = weekly_summary (normalize_rows raw2)"
    and "monthly_summary (normalize_rows raw1) = monthly_summary (normalize_rows raw2)"
    and "summary (normalize_rows raw1) = summary (normalize_rows raw2)"
    and "attendance (normalize_rows raw1) = attendance (normalize_rows raw2)"
    and "buffer_summary (normalize_rows raw1) = buffer_summary (normalize_rows raw2)"
proof -
  have e: "map (\<lambda>r. r\<lparr>end_date := None\<rparr>) (normalize_rows raw1)
      = map (\<lambda>r. r\<lparr>end_date := None\<rparr>) (normalize_rows raw2)"
    using assms by (simp add: normalize_rows_end_date [symmetric])
  show "weekly_summary (normalize_rows raw1) = weekly_summary (normalize_rows raw2)"
    using arg_cong [OF e, of weekly_summary] by (simp only: reports_erase_end_date)
  show "monthly_summary (normalize_rows raw1) = monthly_summary (normalize_rows raw2)"
    using arg_cong [OF e, of monthly_summary] by (simp only: reports_erase_end_date)
  show "summary (normalize_rows raw1) = summary (normalize_rows raw2)"
    using arg_cong [OF e, of summary] by (simp only: reports_erase_end_date)
  show "attendance (normalize_rows raw1) = attendance (normalize_rows raw2)"
    using arg_cong [OF e, of attendance] by (simp only: reports_erase_end_date)
  show "buffer_summary (normalize_rows raw1) = buffer_summary (normalize_rows raw2)"
    using arg_cong [OF e, of buffer_summary] by (simp only: reports_erase_end_date)
qed

text \<open>
  C9. Two employee tables with the same columns whose rows agree in every cell
  except \<open>end_date\<close> (a value that could not be parsed being \<open>None\<close>) are
  either both rejected with the same missing columns, or give the same Weekly,
  Monthly, Overall, Attendance and Buffer reports; the preprocessed table keeps
  exactly the rows with a \<open>start_date\<close>, whatever their \<open>end_date\<close>.
\<close>

theorem end_date_irrelevant:
  assumes "columns d1 = columns d2"
    and "map (\<lambda>r. r\<lparr>end_date := None\<rparr>) (rows d1) = map (\<lambda>r. r\<lparr>end_date := None\<rparr>) (rows d2)"
  shows "(case (preprocess d1, preprocess d2) of
            (Inr t1, Inr t2) \<Rightarrow>
              weekly_summary (rows t1) = weekly_summary (rows t2)
              \<and> monthly_summary (rows t1) = monthly_summary (rows t2)
              \<and> summary (rows t1) = summary (rows t2)
              \<and> attendance (rows t1) = attendance (rows t2)
              \<and> buffer_report t1 = buffer_report t2
              \<and> length (rows t1) = length (filter (\<lambda>r. start_date r \<noteq> None) (rows d1))
          | (Inl e1, Inl e2) \<Rightarrow> e1 = e2
          | _ \<Rightarrow> False)"
proof (cases "\<forall>col \<in> set required. col \<in> set (columns d1)")
  case False
  then show ?thesis using assms(1) by (simp add: preprocess_def)
next
  case True
  note r = reports_of_erased [OF assms(2)]
  from True assms(1) show ?thesis
    by (simp add: preprocess_def buffer_report_def r length_normalize_rows)
qed

theorem end_date_irrelevant_witness:
  "(\<exists>t1 t2. preprocess (dated_df None) = Inr t1
      \<and> preprocess (dated_df (Some \<lparr>year = 2024, mon = 1, day = 19\<rparr>)) = Inr t2
      \<and> weekly_summary (rows t1) = weekly_summary (rows t2)
      \<and> attendance (rows t1) = attendance (rows t2)
      \<and> buffer_report t1 = buffer_report t2
      \<and> length (rows t1) = 1)"
proof -
  let ?d1 = "dated_df None" and ?d2 = "dated_df (Some \<lparr>year = 2024, mon = 1, day = 19\<rparr>)"
  have a: "columns ?d1 = columns ?d2" by (simp add: dated_df_def)
  have b: "map (\<lambda>r. r\<lparr>end_date := None\<rparr>) (rows ?d1) = map (\<lambda>r. r\<lparr>end_date := None\<rparr>) (rows ?d2)"
    by (simp add: dated_df_def)
  obtain t1 where t1: "preprocess ?d1 = Inr t1" by (simp add: preprocess_def dated_df_def)
  obtain t2 where t2: "preprocess ?d2 = Inr t2" by (simp add: preprocess_def dated_df_def)
  have l: "length (filter (\<lambda>r. start_date r \<noteq> None) (rows ?d1)) = 1"
    by (simp add: dated_df_def example_row_def)
  from end_date_irrelevant [OF a b] t1 t2 l show ?thesis by simp
qed

section \<open>The Buffer report\<close>

lemma claimed_names_not_buffer_cols:
  "''ppt_buffer'' \<notin> set buffer_cols" "''lab_ppt_buffer'' \<notin> set buffer_cols"
  by (simp_all add: buffer_cols_def)

text \<open>
  C2, as stated: the Buffer report is available exactly when the columns
  \<open>ppt_buffer\<close>, \<open>lab_ppt_buffer\<close>, \<open>illu_buffer\<close> and \<open>ae_buffer\<close> are present. A
  table with the required columns and these four gets the warning.
\<close>

theorem buffer_claimed_names_counterexample:
  "map_sum id buffer_report
     (preprocess (buffer_df [''ppt_buffer'', ''lab_ppt_buffer'', ''illu_buffer'', ''ae_buffer'']))
   = Inr BufferWarning"
  by (simp add: preprocess_def buffer_df_def required_def buffer_report_def buffer_cols_def
      add_column_def)

lemma buffer_row_of_group:
  assumes "b \<in> set (buffer_summary rs)"
  shows "b_sums b = map (\<lambda>c. (c, agg_sum (\<lambda>r. other r c)
                                  (filter (\<lambda>r. name r = Some (b_name b)) rs))) buffer_cols"
proof -
  from assms obtain k g where kg: "(k, g) \<in> set (groupby name rs)"
    and b: "b = \<lparr>b_name = k, b_sums = map (\<lambda>c. (c, agg_sum (\<lambda>r. other r c) g)) buffer_cols\<rparr>"
    by (auto simp: buffer_summary_def)
  from groupby_group [OF kg] have "g = filter (\<lambda>r. name r = Some k) rs" by blast
  with b show ?thesis by simp
qed

text \<open>
  C2, amended. The Buffer report is available exactly when the four columns of
  \<open>buffer_cols\<close> (\<open>ppt's_buffer\<close>, \<open>lab_ppt's_buffer\<close>, \<open>illu_buffer\<close>,
  \<open>ae_buffer\<close>) are all in the table, and is the warning otherwise. When available it
  has one row per name, in ascending order, with the sum of each of the four columns
  over the rows of that name. The names \<open>ppt_buffer\<close> and \<open>lab_ppt_buffer\<close> are not
  among the four. The Weekly, Monthly, Overall and Attendance reports do not read the
  column list or the buffer cells.
\<close>

theorem buffer_report_rule:
  "((\<exists>s. buffer_report t = BufferSummary s) \<longleftrightarrow> set buffer_cols \<subseteq> set (columns t))
   \<and> (buffer_report t = BufferWarning \<longleftrightarrow> \<not> set buffer_cols \<subseteq> set (columns t))
   \<and> (\<forall>s. buffer_report t = BufferSummary s \<longrightarrow>
         map b_name s = sort (remdups (List.map_filter name (rows t)))
         \<and> (\<forall>b \<in> set s. b_sums b
               = map (\<lambda>c. (c, \<Sum>r\<leftarrow>filter (\<lambda>r. name r = Some (b_name b)) (rows t).
                                  case other r c of None \<Rightarrow> 0 | Some v \<Rightarrow> v)) buffer_cols))
   \<and> ''ppt_buffer'' \<notin> set buffer_cols \<and> ''lab_ppt_buffer'' \<notin> set buffer_cols
   \<and> weekly_summary (map (\<lambda>r. r\<lparr>other := f r\<rparr>) rs) = weekly_summary rs
   \<and> monthly_summary (map (\<lambda>r. r\<lparr>other := f r\<rparr>) rs) = monthly_summary rs
   \<and> summary (map (\<lambda>r. r\<lparr>other := f r\<rparr>) rs) = summary rs
   \<and> attendance (map (\<lambda>r. r\<lparr>other := f r\<rparr>) rs) = attendance rs"
proof (intro conjI allI impI ballI)
  show "(\<exists>s. buffer_report t = BufferSummary s) \<longleftrightarrow> set buffer_cols \<subseteq> set (columns t)"
    by (auto simp: buffer_report_def)
  show "buffer_report t = BufferWarning \<longleftrightarrow> \<not> set buffer_cols \<subseteq> set (columns t)"
    by (auto simp: buffer_report_def)
next
  fix s assume "buffer_report t = BufferSummary s"
  then have s: "s = buffer_summary (rows t)"
    by (simp add: buffer_report_def split: if_splits)
  show "map b_name s = sort (remdups (List.map_filter name (rows t)))"
    unfolding s buffer_keys by (rule groupby_keys)
  fix b assume "b \<in> set s"
  then show "b_sums b
     = map (\<lambda>c. (c, \<Sum>r\<leftarrow>filter (\<lambda>r. name r = Some (b_name b)) (rows t).
                        case other r c of None \<Rightarrow> 0 | Some v \<Rightarrow> v)) buffer_cols"
    unfolding s by (simp add: buffer_row_of_group agg_sum_alt)
qed (simp_all add: claimed_names_not_buffer_cols weekly_summary_map monthly_summary_map
      summary_map attendance_map)

lemma buffer_df_report:
  "map_sum id buffer_report (preprocess (buffer_df buffer_cols))
   = Inr (BufferSummary [\<lparr>b_name = ''Alice'',
        b_sums = zip buffer_cols [2, 4, 6, 8]\<rparr>])"
  by (simp add: preprocess_def buffer_df_def required_def buffer_report_def buffer_cols_def
      add_column_def normalize_rows_def example_row_def add_temporal_def
      buffer_summary_def groupby_def agg_sum_def)

theorem buffer_report_rule_witness:
  "(\<exists>t s. preprocess (buffer_df buffer_cols) = Inr t
      \<and> set buffer_cols \<subseteq> set (columns t)
      \<and> buffer_report t = BufferSummary s
      \<and> map b_name s = sort (remdups (List.map_filter name (rows t)))
      \<and> map b_sums s = [zip buffer_cols [2, 4, 6, 8]])"
proof -
  obtain t where t: "preprocess (buffer_df buffer_cols) = Inr t"
    by (simp add: preprocess_def buffer_df_def required_def)
  have c: "set buffer_cols \<subseteq> set (columns t)"
    using t by (auto simp: preprocess_def buffer_df_def required_def add_column_def
        split: if_splits)
  with buffer_report_rule [of t] obtain s where s: "buffer_report t = BufferSummary s"
    by blast
  with buffer_report_rule [of t]
  have n: "map b_name s = sort (remdups (List.map_filter name (rows t)))" by blast
  from buffer_df_report t s have m: "map b_sums s = [zip buffer_cols [2, 4, 6, 8]]" by simp
  from t c s n m
  have "preprocess (buffer_df buffer_cols) = Inr t
      \<and> set buffer_cols \<subseteq> set (columns t)
      \<and> buffer_report t = BufferSummary s
      \<and> map b_name s = sort (remdups (List.map_filter name (rows t)))
      \<and> map b_sums s = [zip buffer_cols [2, 4, 6, 8]]"
    by (intro conjI)
  then show ?thesis by (intro exI)
qed

end
